theory Spec2Isabelle
  imports Main "HOL-Library.Word" "HOL-Library.Signed_Division"
begin

section \<open>The native layer\<close>

text \<open>
  \<^verbatim>\<open>gthread-posix.c\<close> wraps the POSIX thread library. What a native call answers is not
  decided by the wrapper, so the model takes it from an environment: \<open>status p c\<close> is
  the status the C library reports for the call \<open>c\<close> (with its arguments). Everything
  the wrapper does to the outside is written to a trace of events, in program order.
\<close>

type_synonym gpointer = nat

abbreviation NULL :: gpointer where "NULL \<equiv> 0"

text \<open>\<^verbatim>\<open>glong\<close>, \<^verbatim>\<open>gulong\<close> and \<^verbatim>\<open>long\<close> on an LP64 platform.\<close>

type_synonym glong = "64 word"
type_synonym gulong = "64 word"

record timespec =
  ts_sec :: glong
  ts_nsec :: glong

record GTimeVal =
  tv_sec :: glong
  tv_usec :: glong

datatype native =
    pthread_mutexattr_init
  | pthread_mutexattr_settype_adaptive
  | pthread_mutexattr_settype_recursive
  | pthread_mutexattr_destroy
  | pthread_mutex_init gpointer
  | pthread_mutex_destroy gpointer
  | pthread_mutex_lock gpointer
  | pthread_mutex_unlock gpointer
  | pthread_mutex_trylock gpointer
  | pthread_rwlock_init gpointer
  | pthread_rwlock_destroy gpointer
  | pthread_rwlock_wrlock gpointer
  | pthread_rwlock_trywrlock gpointer
  | pthread_rwlock_rdlock gpointer
  | pthread_rwlock_tryrdlock gpointer
  | pthread_rwlock_unlock gpointer
  | pthread_cond_init gpointer
  | pthread_cond_destroy gpointer
  | pthread_cond_wait gpointer gpointer
  | pthread_cond_signal gpointer
  | pthread_cond_broadcast gpointer
  | pthread_cond_timedwait gpointer gpointer timespec
  | pthread_key_create gpointer
  | pthread_setspecific nat gpointer
  | pthread_attr_init
  | pthread_attr_setstacksize gulong
  | pthread_attr_setdetachstate bool
  | pthread_create gpointer gpointer
  | pthread_attr_destroy
  | pthread_join gpointer

text \<open>
  The only member of \<^verbatim>\<open>enum GThreadError\<close> (\<^verbatim>\<open>gthread.h\<close>).
\<close>

datatype GThreadError = G_THREAD_ERROR_AGAIN

text \<open>
  What a call does to the outside: a native call, a line on \<^verbatim>\<open>stderr\<close>, \<^verbatim>\<open>abort ()\<close>, the
  warning of \<^verbatim>\<open>g_return_if_fail\<close> (with the text of the failed check), \<^verbatim>\<open>g_error\<close> (with
  the error text and the name of the failed command), \<^verbatim>\<open>g_set_error\<close> (with the \<^verbatim>\<open>GError **\<close>
  it is given, the domain, the code and the message), and the two calls of the slice
  allocator with the block they give or take.
\<close>

datatype event =
    Call native
  | Fprintf_stderr string
  | Abort_process
  | G_return_if_fail_warning string
  | G_error string string
  | G_set_error gpointer string GThreadError string
  | G_slice_new gpointer
  | G_slice_free gpointer

text \<open>
  The platform: the status of every native call, the constants of \<^verbatim>\<open>errno.h\<close>, the
  texts \<^verbatim>\<open>strerror\<close> and \<^verbatim>\<open>g_strerror\<close> give for a status, and what \<^verbatim>\<open>config.h\<close> and \<^verbatim>\<open>unistd.h\<close> define:
  \<open>have_setstacksize\<close> is \<^verbatim>\<open>HAVE_PTHREAD_ATTR_SETSTACKSIZE\<close>, \<open>stack_min\<close> is
  \<open>Some\<close> of the value of \<^verbatim>\<open>sysconf (_SC_THREAD_STACK_MIN)\<close> where
  \<^verbatim>\<open>_SC_THREAD_STACK_MIN\<close> is defined, \<open>adaptive_initializer\<close> and \<open>adaptive_np\<close> are
  \<^verbatim>\<open>PTHREAD_ADAPTIVE_MUTEX_INITIALIZER_NP\<close> and \<^verbatim>\<open>PTHREAD_ADAPTIVE_MUTEX_NP\<close>.
\<close>

record platform =
  status :: "native \<Rightarrow> int"
  EAGAIN :: int
  EBUSY :: int
  ETIMEDOUT :: int
  strerror :: "int \<Rightarrow> string"
  g_strerror :: "int \<Rightarrow> string"
  have_setstacksize :: bool
  stack_min :: "glong option"
  adaptive_initializer :: bool
  adaptive_np :: bool

text \<open>
  A call of the wrapper either returns a value or ends the process; with it comes the
  trace of what it did.
\<close>

datatype 'a outcome = Returns 'a | Aborts

type_synonym 'a run = "'a outcome \<times> event list"

definition after :: "event list \<Rightarrow> 'a run \<Rightarrow> 'a run" where
  "after es r = (fst r, es @ snd r)"

definition andthen :: "unit run \<Rightarrow> 'a run \<Rightarrow> 'a run" where
  "andthen r k = (case fst r of Aborts \<Rightarrow> (Aborts, snd r) | Returns _ \<Rightarrow> after (snd r) k)"

definition finished :: "unit run" where
  "finished = (Returns (), [])"

section \<open>Failure reporting\<close>

text \<open>
  \<^verbatim>\<open>g_thread_abort (status, function)\<close>: one line on \<^verbatim>\<open>stderr\<close>, then \<^verbatim>\<open>abort ()\<close>. The
  format string is
  \<^verbatim>\<open>"GLib (gthread-posix.c): Unexpected error from C library during '%s': %s.  Aborting.\n"\<close>
  and its arguments are \<^verbatim>\<open>strerror (status)\<close> and \<^verbatim>\<open>function\<close>, in this order.
\<close>

definition g_thread_abort_message :: "platform \<Rightarrow> int \<Rightarrow> string \<Rightarrow> string" where
  "g_thread_abort_message p st function =
     ''GLib (gthread-posix.c): Unexpected error from C library during '' @ [CHR 0x27]
       @ strerror p st @ [CHR 0x27] @ '': '' @ function @ ''.  Aborting.'' @ [CHR 0x0A]"

definition g_thread_abort :: "platform \<Rightarrow> int \<Rightarrow> string \<Rightarrow> 'a run" where
  "g_thread_abort p st function =
     (Aborts, [Fprintf_stderr (g_thread_abort_message p st function), Abort_process])"

section \<open>GMutex\<close>




definition g_mutex_unlock :: "platform \<Rightarrow> gpointer \<Rightarrow> unit run" where
  "g_mutex_unlock p mutex =
     after [Call (pthread_mutex_unlock mutex)]
    (if status p (pthread_mutex_unlock mutex) \<noteq> 0
     then g_thread_abort p (status p (pthread_mutex_unlock mutex)) ''pthread_mutex_lock''
     else finished)"

definition g_mutex_trylock :: "platform \<Rightarrow> gpointer \<Rightarrow> bool run" where
  "g_mutex_trylock p mutex =
     after [Call (pthread_mutex_trylock mutex)]
    (if status p (pthread_mutex_trylock mutex) = 0 then (Returns True, [])
     else if status p (pthread_mutex_trylock mutex) \<noteq> EBUSY p
     then g_thread_abort p (status p (pthread_mutex_trylock mutex)) ''pthread_mutex_trylock''
     else (Returns False, []))"

section \<open>GRecMutex\<close>

record GRecMutex =
  impl :: gpointer

text \<open>
  \<^verbatim>\<open>g_slice_new\<close> gives a block of the allocator's choice: \<open>block\<close>. The native
  statuses are not looked at.
\<close>

definition g_rec_mutex_impl_new :: "gpointer \<Rightarrow> gpointer \<times> event list" where
  "g_rec_mutex_impl_new block =
     (block, [G_slice_new block, Call pthread_mutexattr_init,
              Call pthread_mutexattr_settype_recursive, Call (pthread_mutex_init block),
              Call pthread_mutexattr_destroy])"

definition g_rec_mutex_impl_free :: "gpointer \<Rightarrow> event list" where
  "g_rec_mutex_impl_free mutex = [Call (pthread_mutex_destroy mutex), G_slice_free mutex]"

text \<open>
  Modelled from the spec: \<^verbatim>\<open>g_atomic_pointer_compare_and_exchange\<close> (\<^verbatim>\<open>gatomic.h\<close>) is not
  among the sources; it is the "atomic compare-and-publish" of the specification: in
  one step, the cell is set to \<open>newval\<close> if it holds \<open>oldval\<close>, and the answer says
  whether it was. The result is the answer and the cell.
\<close>

definition g_atomic_pointer_compare_and_exchange ::
    "gpointer \<Rightarrow> gpointer \<Rightarrow> gpointer \<Rightarrow> bool \<times> gpointer" where
  "g_atomic_pointer_compare_and_exchange atomic oldval newval =
     (if atomic = oldval then (True, newval) else (False, atomic))"

text \<open>One thread, alone with the mutex: the value returned, the mutex, the trace.\<close>

definition g_rec_mutex_get_impl ::
    "gpointer \<Rightarrow> GRecMutex \<Rightarrow> gpointer \<times> GRecMutex \<times> event list" where
  "g_rec_mutex_get_impl block mutex =
     (if impl mutex = NULL
      then (let new = g_rec_mutex_impl_new block;
                cas = g_atomic_pointer_compare_and_exchange (impl mutex) NULL (fst new)
            in (snd cas, mutex\<lparr>impl := snd cas\<rparr>,
                snd new @ (if \<not> fst cas then g_rec_mutex_impl_free (fst new) else [])))
      else (impl mutex, mutex, []))"

definition g_rec_mutex_init :: "gpointer \<Rightarrow> GRecMutex \<Rightarrow> GRecMutex \<times> event list" where
  "g_rec_mutex_init block rec_mutex =
     (rec_mutex\<lparr>impl := fst (g_rec_mutex_impl_new block)\<rparr>, snd (g_rec_mutex_impl_new block))"

definition g_rec_mutex_clear :: "GRecMutex \<Rightarrow> GRecMutex \<times> event list" where
  "g_rec_mutex_clear rec_mutex =
     (rec_mutex, if impl rec_mutex \<noteq> NULL then g_rec_mutex_impl_free (impl rec_mutex) else [])"




section \<open>GRWLock\<close>









section \<open>GCond\<close>



definition g_cond_wait :: "platform \<Rightarrow> gpointer \<Rightarrow> gpointer \<Rightarrow> unit run" where
  "g_cond_wait p cond mutex =
     after [Call (pthread_cond_wait cond mutex)]
    (if status p (pthread_cond_wait cond mutex) \<noteq> 0
     then g_thread_abort p (status p (pthread_cond_wait cond mutex)) ''pthread_cond_wait''
     else finished)"



text \<open>\<open>abs_time\<close> is \<open>None\<close> for a null pointer.\<close>

definition g_cond_timed_wait :: "platform \<Rightarrow> gpointer \<Rightarrow> gpointer \<Rightarrow> GTimeVal option \<Rightarrow> bool run" where
  "g_cond_timed_wait p cond mutex abs_time =
     (case abs_time of
        None \<Rightarrow> andthen (g_cond_wait p cond mutex) (Returns True, [])
      | Some t \<Rightarrow>
          (let end_time = \<lparr>ts_sec = tv_sec t, ts_nsec = tv_usec t * 1000\<rparr>
           in after [Call (pthread_cond_timedwait cond mutex end_time)]
             (if status p (pthread_cond_timedwait cond mutex end_time) = 0 then (Returns True, [])
              else if status p (pthread_cond_timedwait cond mutex end_time) \<noteq> ETIMEDOUT p
              then g_thread_abort p (status p (pthread_cond_timedwait cond mutex end_time))
                     ''pthread_cond_timedwait''
              else (Returns False, []))))"


section \<open>GPrivate\<close>






section \<open>GThread\<close>

text \<open>
  Modelled from the spec: \<^verbatim>\<open>g_error\<close> (\<^verbatim>\<open>gmessages.h\<close>) is not among the sources; an
  unexpected native status of the thread functions is fatal: the message is logged and
  the process ends. The message is kept as its two variable parts, the text of the
  status and the name of the command.
\<close>

definition g_error :: "string \<Rightarrow> string \<Rightarrow> 'a run" where
  "g_error err_text name = (Aborts, [G_error err_text name, Abort_process])"

definition posix_check_err :: "platform \<Rightarrow> int \<Rightarrow> string \<Rightarrow> unit run" where
  "posix_check_err p err name = (if err \<noteq> 0 then g_error (g_strerror p err) name else finished)"

text \<open>\<^verbatim>\<open>posix_check_cmd (cmd)\<close>: the command runs, its text \<^verbatim>\<open>#cmd\<close> is the name.\<close>

definition posix_check_cmd :: "platform \<Rightarrow> native \<Rightarrow> string \<Rightarrow> unit run" where
  "posix_check_cmd p cmd name = after [Call cmd] (posix_check_err p (status p cmd) name)"

text \<open>
  \<^verbatim>\<open>MAX (a, b)\<close> is \<^verbatim>\<open>(((a) > (b)) ? (a) : (b))\<close>. In \<^verbatim>\<open>g_system_thread_create\<close> \<open>a\<close> is
  the \<^verbatim>\<open>long\<close> of \<^verbatim>\<open>sysconf\<close> and \<open>b\<close> a \<^verbatim>\<open>gulong\<close>: C converts \<open>a\<close> to
  \<^verbatim>\<open>unsigned long\<close>, for the comparison and for the result, which leaves its bits as
  they are.
\<close>

definition MAX_ulong :: "glong \<Rightarrow> gulong \<Rightarrow> gulong" where
  "MAX_ulong a b = (if a > b then a else b)"

text \<open>
  Modelled from the spec: \<^verbatim>\<open>g_return_if_fail\<close> (\<^verbatim>\<open>gmessages.h\<close>) is not among the sources;
  where the check fails, a warning with the text of the check is logged and the
  function returns. \<^verbatim>\<open>g_set_error\<close> (\<^verbatim>\<open>gerror.h\<close>) is not among the sources either: the
  call is written to the trace with its arguments.
\<close>

definition g_system_thread_create ::
    "platform \<Rightarrow> gpointer \<Rightarrow> gpointer \<Rightarrow> gulong \<Rightarrow> bool \<Rightarrow> gpointer \<Rightarrow> gpointer \<Rightarrow> unit run" where
  "g_system_thread_create p thread_func arg stack_size joinable thread error =
     (if thread_func = NULL then (Returns (), [G_return_if_fail_warning ''thread_func''])
      else
        andthen (posix_check_cmd p pthread_attr_init ''pthread_attr_init (&attr)'')
       (andthen (if have_setstacksize p \<and> stack_size \<noteq> 0
                 then (Returns (),
                       [Call (pthread_attr_setstacksize
                          (case stack_min p of Some m \<Rightarrow> MAX_ulong m stack_size | None \<Rightarrow> stack_size))])
                 else finished)
       (andthen (posix_check_cmd p (pthread_attr_setdetachstate joinable)
                   ''pthread_attr_setdetachstate (&attr, joinable ? PTHREAD_CREATE_JOINABLE : PTHREAD_CREATE_DETACHED)'')
       (after [Call (pthread_create thread_func arg)]
       (andthen (posix_check_cmd p pthread_attr_destroy ''pthread_attr_destroy (&attr)'')
       (if status p (pthread_create thread_func arg) = EAGAIN p
        then (Returns (),
              [G_set_error error ''G_THREAD_ERROR'' G_THREAD_ERROR_AGAIN
                 (''Error creating thread: '' @ g_strerror p (status p (pthread_create thread_func arg)))])
        else posix_check_err p (status p (pthread_create thread_func arg)) ''pthread_create''))))))"

definition g_system_thread_join :: "platform \<Rightarrow> gpointer \<Rightarrow> unit run" where
  "g_system_thread_join p thread =
     posix_check_cmd p (pthread_join thread) ''pthread_join (*(pthread_t*)thread, &ignore)''"

section \<open>A platform for the examples\<close>

text \<open>
  Linux on x86-64 with glibc: the error numbers, \<^verbatim>\<open>PTHREAD_STACK_MIN\<close> 16384,
  \<^verbatim>\<open>PTHREAD_ADAPTIVE_MUTEX_INITIALIZER_NP\<close> a macro and \<^verbatim>\<open>PTHREAD_ADAPTIVE_MUTEX_NP\<close> an
  enumerator, not a macro. \<open>linux_strerror\<close> has the texts of glibc for the error numbers
  the thread functions report (\<^verbatim>\<open>EPERM\<close>, \<^verbatim>\<open>ESRCH\<close>, \<^verbatim>\<open>EAGAIN\<close>, \<^verbatim>\<open>ENOMEM\<close>, \<^verbatim>\<open>EBUSY\<close>,
  \<^verbatim>\<open>EINVAL\<close>, \<^verbatim>\<open>EDEADLK\<close>, \<^verbatim>\<open>ETIMEDOUT\<close>); a number outside this table gets the text
  glibc has for a number it does not know. The statuses of the native calls are still to
  be given.
\<close>

fun decimal :: "nat \<Rightarrow> string" where
  "decimal n =
     (if n < 10 then [''0123456789'' ! n] else decimal (n div 10) @ [''0123456789'' ! (n mod 10)])"

declare decimal.simps [simp del]

definition linux_strerror :: "int \<Rightarrow> string" where
  "linux_strerror e =
     (if e = 0 then ''Success''
      else if e = 1 then ''Operation not permitted''
      else if e = 3 then ''No such process''
      else if e = 11 then ''Resource temporarily unavailable''
      else if e = 12 then ''Cannot allocate memory''
      else if e = 16 then ''Device or resource busy''
      else if e = 22 then ''Invalid argument''
      else if e = 35 then ''Resource deadlock avoided''
      else if e = 110 then ''Connection timed out''
      else if e < 0 then ''Unknown error -'' @ decimal (nat (- e))
      else ''Unknown error '' @ decimal (nat e))"

definition linux :: "(native \<Rightarrow> int) \<Rightarrow> platform" where
  "linux st =
     \<lparr>status = st, EAGAIN = 11, EBUSY = 16, ETIMEDOUT = 110,
      strerror = linux_strerror, g_strerror = linux_strerror,
      have_setstacksize = True, stack_min = Some 16384,
      adaptive_initializer = True, adaptive_np = False\<rparr>"

section \<open>GRecMutex: the first use by several threads\<close>

text \<open>
  Several threads call \<^verbatim>\<open>g_rec_mutex_get_impl\<close> on one mutex. Each access to the shared
  field \<^verbatim>\<open>mutex->impl\<close> is a step of its own, and steps of different threads interleave.
  Where a thread stands in the function, with its local \<^verbatim>\<open>impl\<close>:
  \<^item> \<open>Load\<close>: before \<^verbatim>\<open>impl = mutex->impl\<close> (line 260);
  \<^item> \<open>Test l\<close>: before the test \<^verbatim>\<open>mutex->impl == NULL\<close> (line 262), which reads the field
    again, with \<^verbatim>\<open>impl\<close> being \<open>l\<close>;
  \<^item> \<open>Alloc\<close>: before \<^verbatim>\<open>impl = g_rec_mutex_impl_new ()\<close> (line 264);
  \<^item> \<open>Publish c\<close>: before the compare-and-exchange of line 265, with the candidate \<open>c\<close>;
  \<^item> \<open>Discard c\<close>: the exchange has failed, before \<^verbatim>\<open>g_rec_mutex_impl_free (impl)\<close>
    (line 266);
  \<^item> \<open>Reload\<close>: before \<^verbatim>\<open>impl = mutex->impl\<close> (line 267);
  \<^item> \<open>Return l\<close>: the call returns \<open>l\<close> (line 270).
\<close>

datatype pc =
    Load
  | Test gpointer
  | Alloc
  | Publish gpointer
  | Discard gpointer
  | Reload
  | Return gpointer

text \<open>
  The shared state: the field \<^verbatim>\<open>mutex->impl\<close>, the blocks of the slice allocator in use,
  where each thread stands, and two logs: the exchanges that succeeded and the
  candidates freed, each with its thread.
\<close>

record race =
  cell :: gpointer
  blocks :: "gpointer set"
  at :: "nat \<Rightarrow> pc"
  wins :: "(nat \<times> gpointer) list"
  frees :: "(nat \<times> gpointer) list"

text \<open>
  The next step of thread \<open>t\<close>; \<open>b\<close> is the block \<^verbatim>\<open>g_slice_new\<close> gives if the step
  allocates. There is no step (\<open>None\<close>) for a thread that has returned, nor where the
  allocator would give null or a block in use.
\<close>

definition get_impl_step :: "nat \<Rightarrow> gpointer \<Rightarrow> race \<Rightarrow> race option" where
  "get_impl_step t b s =
     (case at s t of
        Load \<Rightarrow> Some (s\<lparr>at := (at s)(t := Test (cell s))\<rparr>)
      | Test l \<Rightarrow> Some (s\<lparr>at := (at s)(t := if cell s = NULL then Alloc else Return l)\<rparr>)
      | Alloc \<Rightarrow>
          if b = NULL \<or> b \<in> blocks s then None
          else Some (s\<lparr>blocks := insert (fst (g_rec_mutex_impl_new b)) (blocks s),
                       at := (at s)(t := Publish (fst (g_rec_mutex_impl_new b)))\<rparr>)
      | Publish c \<Rightarrow>
          (case g_atomic_pointer_compare_and_exchange (cell s) NULL c of
             (won, cell') \<Rightarrow>
               Some (s\<lparr>cell := cell',
                       at := (at s)(t := if \<not> won then Discard c else Reload),
                       wins := (if won then wins s @ [(t, c)] else wins s)\<rparr>))
      | Discard c \<Rightarrow>
          Some (s\<lparr>blocks := blocks s - {c}, at := (at s)(t := Reload), frees := frees s @ [(t, c)]\<rparr>)
      | Reload \<Rightarrow> Some (s\<lparr>at := (at s)(t := Return (cell s))\<rparr>)
      | Return l \<Rightarrow> None)"

text \<open>A schedule: which thread steps next, and the block the allocator has for it.\<close>

fun interleave :: "(nat \<times> gpointer) list \<Rightarrow> race \<Rightarrow> race option" where
  "interleave [] s = Some s"
| "interleave ((t, b) # sched) s = (case get_impl_step t b s of None \<Rightarrow> None | Some s' \<Rightarrow> interleave sched s')"

text \<open>A static recursive mutex not yet used, no thread in the function.\<close>

definition unallocated :: race where
  "unallocated = \<lparr>cell = NULL, blocks = {}, at = (\<lambda>_. Load), wins = [], frees = []\<rparr>"

definition initially :: "race \<Rightarrow> bool" where
  "initially s \<longleftrightarrow> cell s = NULL \<and> (\<forall>t. at s t = Load) \<and> wins s = [] \<and> frees s = []"

text \<open>
  The candidate a thread holds, and what holds of a thread wherever it stands, given the
  field and the blocks in use: a candidate is a block in use that is not null and not
  the published handle, a thread that has lost the exchange or reloads finds the field
  set, a local copy is null or the published handle.
\<close>

fun candidate :: "pc \<Rightarrow> gpointer option" where
  "candidate (Publish c) = Some c"
| "candidate (Discard c) = Some c"
| "candidate _ = None"

fun pc_ok :: "gpointer \<Rightarrow> gpointer set \<Rightarrow> pc \<Rightarrow> bool" where
  "pc_ok x B Load = True"
| "pc_ok x B (Test l) = (l = NULL \<or> l = x)"
| "pc_ok x B Alloc = True"
| "pc_ok x B (Publish c) = (c \<noteq> NULL \<and> c \<in> B \<and> c \<noteq> x)"
| "pc_ok x B (Discard c) = (c \<noteq> NULL \<and> c \<in> B \<and> c \<noteq> x \<and> x \<noteq> NULL)"
| "pc_ok x B Reload = (x \<noteq> NULL)"
| "pc_ok x B (Return l) = (l = NULL \<or> l = x)"

definition race_inv :: "race \<Rightarrow> bool" where
  "race_inv s \<longleftrightarrow>
     (cell s \<noteq> NULL \<longrightarrow> cell s \<in> blocks s)
   \<and> (\<forall>t. pc_ok (cell s) (blocks s) (at s t))
   \<and> (\<forall>t t'. t \<noteq> t' \<and> candidate (at s t) \<noteq> None \<longrightarrow> candidate (at s t) \<noteq> candidate (at s t'))
   \<and> (if cell s = NULL then wins s = [] else \<exists>w. wins s = [(w, cell s)])
   \<and> (\<forall>(t, c) \<in> set (frees s). cell s \<noteq> NULL \<and> c \<noteq> cell s)"

text \<open>
  A call that begins once \<open>x\<close> is published stands at one of these; a call that has
  found the field null at its test stands at one of those of \<open>racing\<close>.
\<close>

definition late :: "gpointer \<Rightarrow> pc \<Rightarrow> bool" where
  "late x p \<longleftrightarrow> p = Load \<or> p = Test x \<or> p = Return x"

definition racing :: "gpointer \<Rightarrow> pc \<Rightarrow> bool" where
  "racing x p \<longleftrightarrow>
     p = Alloc \<or> (\<exists>c. p = Publish c) \<or> (\<exists>c. p = Discard c) \<or> p = Reload
     \<or> (x \<noteq> NULL \<and> p = Return x)"

section \<open>Properties of a run\<close>

text \<open>
  A run ended by \<^verbatim>\<open>g_thread_abort\<close> for the status \<open>st\<close>: the process has ended, and the
  last things done are the diagnostic for \<open>st\<close> (with some function name) and \<^verbatim>\<open>abort ()\<close>.
\<close>

definition by_g_thread_abort :: "platform \<Rightarrow> int \<Rightarrow> 'a run \<Rightarrow> bool" where
  "by_g_thread_abort p st r \<longleftrightarrow>
     fst r = Aborts \<and>
     (\<exists>es function. snd r = es @ [Fprintf_stderr (g_thread_abort_message p st function), Abort_process])"


text \<open>The stack sizes given to \<^verbatim>\<open>pthread_attr_setstacksize\<close> in a trace, in order.\<close>

fun stack_size_applied :: "event \<Rightarrow> gulong list" where
  "stack_size_applied (Call (pthread_attr_setstacksize w)) = [w]"
| "stack_size_applied _ = []"

definition stack_sizes_applied :: "event list \<Rightarrow> gulong list" where
  "stack_sizes_applied es = concat (map stack_size_applied es)"



section \<open>Reading a run\<close>

lemma fst_after [simp]: "fst (after es r) = fst r"
  by (simp add: after_def)

lemma snd_after [simp]: "snd (after es r) = es @ snd r"
  by (simp add: after_def)

lemma fst_g_thread_abort [simp]: "fst (g_thread_abort p st f) = Aborts"
  by (simp add: g_thread_abort_def)

lemma snd_g_thread_abort [simp]:
  "snd (g_thread_abort p st f) = [Fprintf_stderr (g_thread_abort_message p st f), Abort_process]"
  by (simp add: g_thread_abort_def)

lemma fst_finished [simp]: "fst finished = Returns ()"
  by (simp add: finished_def)

lemma snd_finished [simp]: "snd finished = []"
  by (simp add: finished_def)

lemma fst_andthen:
  "fst (andthen r k) = (case fst r of Aborts \<Rightarrow> Aborts | Returns _ \<Rightarrow> fst k)"
  by (simp add: andthen_def split: outcome.splits)

lemma snd_andthen:
  "snd (andthen r k) = (case fst r of Aborts \<Rightarrow> snd r | Returns _ \<Rightarrow> snd r @ snd k)"
  by (simp add: andthen_def split: outcome.splits)

lemma fst_g_error [simp]: "fst (g_error t n) = Aborts"
  by (simp add: g_error_def)

lemma snd_g_error [simp]: "snd (g_error t n) = [G_error t n, Abort_process]"
  by (simp add: g_error_def)

lemma fst_posix_check_err: "fst (posix_check_err p e n) = (if e \<noteq> 0 then Aborts else Returns ())"
  by (simp add: posix_check_err_def)

lemma snd_posix_check_err:
  "snd (posix_check_err p e n) = (if e \<noteq> 0 then [G_error (g_strerror p e) n, Abort_process] else [])"
  by (simp add: posix_check_err_def)

lemma fst_posix_check_cmd:
  "fst (posix_check_cmd p c n) = (if status p c \<noteq> 0 then Aborts else Returns ())"
  by (simp add: posix_check_cmd_def fst_posix_check_err)

lemma snd_posix_check_cmd:
  "snd (posix_check_cmd p c n) =
     Call c # (if status p c \<noteq> 0 then [G_error (g_strerror p (status p c)) n, Abort_process] else [])"
  by (simp add: posix_check_cmd_def snd_posix_check_err)

lemmas run_simps = fst_andthen snd_andthen fst_posix_check_err snd_posix_check_err
  fst_posix_check_cmd snd_posix_check_cmd

lemma stack_sizes_applied_simps [simp]:
  "stack_sizes_applied [] = []"
  "stack_sizes_applied (e # es) = stack_size_applied e @ stack_sizes_applied es"
  "stack_sizes_applied (es @ es') = stack_sizes_applied es @ stack_sizes_applied es'"
  by (simp_all add: stack_sizes_applied_def)

section \<open>GMutex: trylock\<close>

text \<open>
  C5. \<^verbatim>\<open>g_mutex_trylock\<close> returns \<^verbatim>\<open>TRUE\<close> exactly when the native trylock reports
  success, \<^verbatim>\<open>FALSE\<close> exactly when it reports \<^verbatim>\<open>EBUSY\<close>, and ends the process on every
  other status, after the diagnostic of \<^verbatim>\<open>g_thread_abort\<close> for \<^verbatim>\<open>pthread_mutex_trylock\<close>.
  (\<^verbatim>\<open>EBUSY\<close> is an error number, so it is not 0.)
\<close>

theorem g_mutex_trylock_result:
  assumes "EBUSY p \<noteq> 0"
  shows "(fst (g_mutex_trylock p mutex) = Returns True
            \<longleftrightarrow> status p (pthread_mutex_trylock mutex) = 0)
       \<and> (fst (g_mutex_trylock p mutex) = Returns False
            \<longleftrightarrow> status p (pthread_mutex_trylock mutex) = EBUSY p)
       \<and> (fst (g_mutex_trylock p mutex) = Aborts
            \<longleftrightarrow> status p (pthread_mutex_trylock mutex) \<noteq> 0
              \<and> status p (pthread_mutex_trylock mutex) \<noteq> EBUSY p)
       \<and> (fst (g_mutex_trylock p mutex) = Aborts \<longrightarrow>
            snd (g_mutex_trylock p mutex) =
              [Call (pthread_mutex_trylock mutex),
               Fprintf_stderr (g_thread_abort_message p (status p (pthread_mutex_trylock mutex))
                                 ''pthread_mutex_trylock''),
               Abort_process])"
  using assms by (auto simp add: g_mutex_trylock_def)

theorem g_mutex_trylock_result_witness:
  "fst (g_mutex_trylock (linux (\<lambda>_. 0)) 1) = Returns True
   \<and> fst (g_mutex_trylock (linux (\<lambda>_. 16)) 1) = Returns False
   \<and> fst (g_mutex_trylock (linux (\<lambda>_. 22)) 1) = Aborts"
  using g_mutex_trylock_result [of "linux (\<lambda>_. 0)" 1]
        g_mutex_trylock_result [of "linux (\<lambda>_. 16)" 1]
        g_mutex_trylock_result [of "linux (\<lambda>_. 22)" 1]
  by (simp add: linux_def)

section \<open>GCond: the timed wait\<close>

text \<open>
  C4. With a deadline, \<^verbatim>\<open>g_cond_timed_wait\<close> returns \<^verbatim>\<open>TRUE\<close> exactly when the native
  timed wait reports success, \<^verbatim>\<open>FALSE\<close> exactly when it reports \<^verbatim>\<open>ETIMEDOUT\<close>, and ends
  the process through \<^verbatim>\<open>g_thread_abort\<close> on every other status. With a null deadline it
  does what \<^verbatim>\<open>g_cond_wait\<close> does (the same trace, the same end of the process where the
  wait fails) and returns \<^verbatim>\<open>TRUE\<close> where the wait returns.
  (\<^verbatim>\<open>ETIMEDOUT\<close> is an error number, so it is not 0.)
\<close>

theorem g_cond_timed_wait_result:
  assumes "ETIMEDOUT p \<noteq> 0"
  shows "(fst (g_cond_timed_wait p cond mutex (Some t)) = Returns True
            \<longleftrightarrow> status p (pthread_cond_timedwait cond mutex
                  \<lparr>ts_sec = tv_sec t, ts_nsec = tv_usec t * 1000\<rparr>) = 0)
       \<and> (fst (g_cond_timed_wait p cond mutex (Some t)) = Returns False
            \<longleftrightarrow> status p (pthread_cond_timedwait cond mutex
                  \<lparr>ts_sec = tv_sec t, ts_nsec = tv_usec t * 1000\<rparr>) = ETIMEDOUT p)
       \<and> (fst (g_cond_timed_wait p cond mutex (Some t)) = Aborts
            \<longleftrightarrow> status p (pthread_cond_timedwait cond mutex
                  \<lparr>ts_sec = tv_sec t, ts_nsec = tv_usec t * 1000\<rparr>) \<noteq> 0
              \<and> status p (pthread_cond_timedwait cond mutex
                  \<lparr>ts_sec = tv_sec t, ts_nsec = tv_usec t * 1000\<rparr>) \<noteq> ETIMEDOUT p)
       \<and> (fst (g_cond_timed_wait p cond mutex (Some t)) = Aborts \<longrightarrow>
            snd (g_cond_timed_wait p cond mutex (Some t)) =
              [Call (pthread_cond_timedwait cond mutex
                  \<lparr>ts_sec = tv_sec t, ts_nsec = tv_usec t * 1000\<rparr>),
               Fprintf_stderr (g_thread_abort_message p
                 (status p (pthread_cond_timedwait cond mutex
                    \<lparr>ts_sec = tv_sec t, ts_nsec = tv_usec t * 1000\<rparr>))
                 ''pthread_cond_timedwait''),
               Abort_process])
       \<and> snd (g_cond_timed_wait p cond mutex None) = snd (g_cond_wait p cond mutex)
       \<and> (fst (g_cond_wait p cond mutex) = Returns ()
            \<longrightarrow> fst (g_cond_timed_wait p cond mutex None) = Returns True)
       \<and> (fst (g_cond_wait p cond mutex) = Aborts
            \<longrightarrow> fst (g_cond_timed_wait p cond mutex None) = Aborts)"
  using assms
  by (auto simp add: g_cond_timed_wait_def g_cond_wait_def andthen_def Let_def)

theorem g_cond_timed_wait_result_witness:
  "fst (g_cond_timed_wait (linux (\<lambda>_. 0)) 1 2 (Some \<lparr>tv_sec = 5, tv_usec = 7\<rparr>)) = Returns True
   \<and> fst (g_cond_timed_wait (linux (\<lambda>_. 110)) 1 2 (Some \<lparr>tv_sec = 5, tv_usec = 7\<rparr>)) = Returns False
   \<and> fst (g_cond_timed_wait (linux (\<lambda>_. 22)) 1 2 (Some \<lparr>tv_sec = 5, tv_usec = 7\<rparr>)) = Aborts
   \<and> fst (g_cond_timed_wait (linux (\<lambda>_. 0)) 1 2 None) = Returns True
   \<and> fst (g_cond_timed_wait (linux (\<lambda>_. 22)) 1 2 None) = Aborts"
  using g_cond_timed_wait_result [of "linux (\<lambda>_. 0)" 1 2 "\<lparr>tv_sec = 5, tv_usec = 7\<rparr>"]
        g_cond_timed_wait_result [of "linux (\<lambda>_. 110)" 1 2 "\<lparr>tv_sec = 5, tv_usec = 7\<rparr>"]
        g_cond_timed_wait_result [of "linux (\<lambda>_. 22)" 1 2 "\<lparr>tv_sec = 5, tv_usec = 7\<rparr>"]
  by (simp add: linux_def g_cond_wait_def)

section \<open>GRecMutex: clear\<close>

text \<open>
  C8. \<^verbatim>\<open>g_rec_mutex_clear\<close> frees the backing mutex exactly when the handle is not null:
  on a null handle (a static recursive mutex never used) it does nothing, on any other
  it destroys and frees that handle and nothing else. A handle set by
  \<^verbatim>\<open>g_rec_mutex_init\<close> or by the first use is the allocated block, which \<^verbatim>\<open>clear\<close>
  then frees.
\<close>

theorem g_rec_mutex_clear_frees:
  "(impl rec_mutex = NULL \<longrightarrow> g_rec_mutex_clear rec_mutex = (rec_mutex, []))
   \<and> (impl rec_mutex \<noteq> NULL \<longrightarrow>
        g_rec_mutex_clear rec_mutex =
          (rec_mutex, [Call (pthread_mutex_destroy (impl rec_mutex)), G_slice_free (impl rec_mutex)]))
   \<and> (G_slice_free a \<in> set (snd (g_rec_mutex_clear rec_mutex))
        \<longleftrightarrow> impl rec_mutex \<noteq> NULL \<and> a = impl rec_mutex)
   \<and> (block \<noteq> NULL \<longrightarrow>
        snd (g_rec_mutex_clear (fst (g_rec_mutex_init block rec_mutex))) =
          [Call (pthread_mutex_destroy block), G_slice_free block])
   \<and> (block \<noteq> NULL \<and> impl rec_mutex = NULL \<longrightarrow>
        snd (g_rec_mutex_clear (fst (snd (g_rec_mutex_get_impl block rec_mutex)))) =
          [Call (pthread_mutex_destroy block), G_slice_free block])"
  by (auto simp add: g_rec_mutex_clear_def g_rec_mutex_impl_free_def g_rec_mutex_init_def
        g_rec_mutex_get_impl_def g_rec_mutex_impl_new_def
        g_atomic_pointer_compare_and_exchange_def Let_def)

theorem g_rec_mutex_clear_frees_witness:
  "g_rec_mutex_clear \<lparr>impl = NULL\<rparr> = (\<lparr>impl = NULL\<rparr>, [])
   \<and> g_rec_mutex_clear \<lparr>impl = 64\<rparr> =
       (\<lparr>impl = 64\<rparr>, [Call (pthread_mutex_destroy 64), G_slice_free 64])
   \<and> snd (g_rec_mutex_clear (fst (g_rec_mutex_init 64 \<lparr>impl = NULL\<rparr>))) =
          [Call (pthread_mutex_destroy 64), G_slice_free 64]
   \<and> snd (g_rec_mutex_clear (fst (snd (g_rec_mutex_get_impl 64 \<lparr>impl = NULL\<rparr>)))) =
          [Call (pthread_mutex_destroy 64), G_slice_free 64]"
  using g_rec_mutex_clear_frees [of "\<lparr>impl = NULL\<rparr>" 64 64]
        g_rec_mutex_clear_frees [of "\<lparr>impl = 64\<rparr>" 64 64]
  by simp

section \<open>GThread: a null thread function\<close>

text \<open>
  C10. With a null \<^verbatim>\<open>thread_func\<close>, \<^verbatim>\<open>g_system_thread_create\<close> returns at once: the
  warning of the failed check is all it does. No native call is made, so no thread is
  created, and \<^verbatim>\<open>g_set_error\<close> is not called.
\<close>

theorem g_system_thread_create_null_func:
  "g_system_thread_create p NULL arg stack_size joinable thread error =
     (Returns (), [G_return_if_fail_warning ''thread_func''])
   \<and> Call c \<notin> set (snd (g_system_thread_create p NULL arg stack_size joinable thread error))
   \<and> G_set_error e d k m
        \<notin> set (snd (g_system_thread_create p NULL arg stack_size joinable thread error))"
  by (simp add: g_system_thread_create_def)

section \<open>The diagnostic of a failed unlock\<close>

text \<open>
  C2. Where \<^verbatim>\<open>pthread_mutex_unlock\<close> fails (here with status 1 on Linux),
  \<^verbatim>\<open>g_mutex_unlock\<close> ends the process, and the line it prints names
  \<^verbatim>\<open>pthread_mutex_lock\<close>, not the unlock that failed.
\<close>

theorem g_mutex_unlock_diagnostic:
  "g_mutex_unlock (linux (\<lambda>_. 1)) 5 =
     (Aborts,
      [Call (pthread_mutex_unlock 5),
       Fprintf_stderr (''GLib (gthread-posix.c): Unexpected error from C library during ''
          @ [CHR 0x27] @ ''Operation not permitted'' @ [CHR 0x27]
          @ '': pthread_mutex_lock.  Aborting.'' @ [CHR 0x0A]),
       Abort_process])"
  by (simp add: g_mutex_unlock_def g_thread_abort_def g_thread_abort_message_def after_def
        linux_def linux_strerror_def)

section \<open>Which operations check the native status\<close>

lemma by_g_thread_abort_after:
  "by_g_thread_abort p st (after es (g_thread_abort p st f))"
  unfolding by_g_thread_abort_def by auto


















section \<open>GThread: the status of the creation\<close>

text \<open>
  C1, as the code has it. Let the creation be reached (the thread function is not null,
  \<^verbatim>\<open>pthread_attr_init\<close> and \<^verbatim>\<open>pthread_attr_setdetachstate\<close> report success). If
  \<^verbatim>\<open>pthread_create\<close> reports \<^verbatim>\<open>EAGAIN\<close> and the \<^verbatim>\<open>pthread_attr_destroy\<close> after it reports
  success, \<^verbatim>\<open>g_system_thread_create\<close> returns, its last act being \<^verbatim>\<open>g_set_error\<close> on the
  caller's \<open>error\<close> with \<^verbatim>\<open>G_THREAD_ERROR_AGAIN\<close>, and \<^verbatim>\<open>abort ()\<close> is not called. A failed
  \<^verbatim>\<open>pthread_attr_destroy\<close> ends the process. Every other status of \<^verbatim>\<open>pthread_create\<close> than 0
  and \<^verbatim>\<open>EAGAIN\<close> ends the process, and \<^verbatim>\<open>g_set_error\<close> is not called.
\<close>

theorem g_system_thread_create_status:
  assumes "thread_func \<noteq> NULL" and "status p pthread_attr_init = 0"
    and "status p (pthread_attr_setdetachstate joinable) = 0"
  shows "Call (pthread_create thread_func arg)
           \<in> set (snd (g_system_thread_create p thread_func arg stack_size joinable thread error))
       \<and> (status p (pthread_create thread_func arg) = EAGAIN p \<and> status p pthread_attr_destroy = 0 \<longrightarrow>
            fst (g_system_thread_create p thread_func arg stack_size joinable thread error) = Returns ()
          \<and> last (snd (g_system_thread_create p thread_func arg stack_size joinable thread error))
              = G_set_error error ''G_THREAD_ERROR'' G_THREAD_ERROR_AGAIN
                  (''Error creating thread: '' @ g_strerror p (EAGAIN p))
          \<and> Abort_process
              \<notin> set (snd (g_system_thread_create p thread_func arg stack_size joinable thread error)))
       \<and> (status p pthread_attr_destroy \<noteq> 0 \<longrightarrow>
            fst (g_system_thread_create p thread_func arg stack_size joinable thread error) = Aborts)
       \<and> (status p (pthread_create thread_func arg) \<noteq> 0
            \<and> status p (pthread_create thread_func arg) \<noteq> EAGAIN p \<longrightarrow>
            fst (g_system_thread_create p thread_func arg stack_size joinable thread error) = Aborts
          \<and> last (snd (g_system_thread_create p thread_func arg stack_size joinable thread error))
              = Abort_process
          \<and> G_set_error error d k msg
              \<notin> set (snd (g_system_thread_create p thread_func arg stack_size joinable thread error)))"
  using assms by (auto simp add: g_system_thread_create_def run_simps)

theorem g_system_thread_create_status_witness:
  "fst (g_system_thread_create (linux (\<lambda>c. if c = pthread_create 7 1 then 11 else 0)) 7 1 0 True 3 4)
     = Returns ()
   \<and> last (snd (g_system_thread_create (linux (\<lambda>c. if c = pthread_create 7 1 then 11 else 0))
        7 1 0 True 3 4))
     = G_set_error 4 ''G_THREAD_ERROR'' G_THREAD_ERROR_AGAIN
         ''Error creating thread: Resource temporarily unavailable''
   \<and> fst (g_system_thread_create (linux (\<lambda>c. if c = pthread_create 7 1 then 12 else 0)) 7 1 0 True 3 4)
     = Aborts"
  using g_system_thread_create_status
          [where p = "linux (\<lambda>c. if c = pthread_create 7 1 then 11 else 0)" and thread_func = 7
             and arg = 1 and joinable = True and stack_size = 0 and thread = 3 and error = 4]
        g_system_thread_create_status
          [where p = "linux (\<lambda>c. if c = pthread_create 7 1 then 12 else 0)" and thread_func = 7
             and arg = 1 and joinable = True and stack_size = 0 and thread = 3 and error = 4]
  by (simp add: linux_def linux_strerror_def)

text \<open>
  C1, as stated, fails: \<^verbatim>\<open>pthread_create\<close> reports \<^verbatim>\<open>EAGAIN\<close> (11) and
  \<^verbatim>\<open>pthread_attr_destroy\<close>, checked before the status of the creation is looked at, reports
  22: the process ends and \<^verbatim>\<open>g_set_error\<close> is not called.
\<close>

theorem g_system_thread_create_eagain_destroy_fails:
  "status (linux (\<lambda>c. if c = pthread_create 7 1 then 11 else if c = pthread_attr_destroy then 22 else 0))
       (pthread_create 7 1)
     = EAGAIN (linux (\<lambda>c. if c = pthread_create 7 1 then 11 else if c = pthread_attr_destroy then 22 else 0))
   \<and> g_system_thread_create
        (linux (\<lambda>c. if c = pthread_create 7 1 then 11 else if c = pthread_attr_destroy then 22 else 0))
        7 1 0 True 3 4
     = (Aborts,
        [Call pthread_attr_init, Call (pthread_attr_setdetachstate True), Call (pthread_create 7 1),
         Call pthread_attr_destroy, G_error ''Invalid argument'' ''pthread_attr_destroy (&attr)'',
         Abort_process])"
  by (simp add: g_system_thread_create_def andthen_def after_def posix_check_cmd_def
        posix_check_err_def g_error_def finished_def linux_def linux_strerror_def)

section \<open>GThread: the stack size\<close>

lemma MAX_ulong_max: "MAX_ulong a b = word_of_int (max (uint a) (uint b))"
  by (simp add: MAX_ulong_def max_def word_less_def word_le_def)

lemma MAX_ulong_ge: "b \<le> MAX_ulong a b"
  by (auto simp add: MAX_ulong_def)

lemma sint_uint_nonneg:
  assumes "0 \<le> sint (m :: 64 word)"
  shows "sint m = uint m"
proof -
  have "sint m < 2 ^ 63"
    using sint_lt [of m] by simp
  with assms have "take_bit 64 (sint m) = sint m"
    by (simp add: take_bit_int_eq_self)
  then show ?thesis
    by (simp add: uint_sint)
qed

lemma stack_sizes_applied_create:
  "stack_sizes_applied (snd (g_system_thread_create p thread_func arg stack_size joinable thread error))
     = (if thread_func \<noteq> NULL \<and> status p pthread_attr_init = 0 \<and> have_setstacksize p \<and> stack_size \<noteq> 0
        then [case stack_min p of Some m \<Rightarrow> MAX_ulong m stack_size | None \<Rightarrow> stack_size]
        else [])"
  by (simp add: g_system_thread_create_def run_simps)

text \<open>
  C9. Where \<^verbatim>\<open>g_system_thread_create\<close> gets as far as the stack size (the thread function
  is not null, \<^verbatim>\<open>pthread_attr_init\<close> succeeded) and \<^verbatim>\<open>pthread_attr_setstacksize\<close> exists, a
  hint that is not 0 is applied once, as the maximum of the hint and the minimum
  \<^verbatim>\<open>sysconf\<close> reports, both read as \<^verbatim>\<open>unsigned long\<close> as C compares them; that is the
  maximum of the two numbers where the reported minimum is not negative. Without
  \<^verbatim>\<open>_SC_THREAD_STACK_MIN\<close> the hint itself is applied. No size applied is ever below the
  hint. A hint of 0 applies no stack size, and neither does a platform without
  \<^verbatim>\<open>pthread_attr_setstacksize\<close>.
\<close>

theorem g_system_thread_create_stack_size:
  "(thread_func \<noteq> NULL \<and> status p pthread_attr_init = 0 \<and> have_setstacksize p \<and> stack_size \<noteq> 0
      \<and> stack_min p = Some m \<longrightarrow>
      stack_sizes_applied (snd (g_system_thread_create p thread_func arg stack_size joinable thread error))
        = [word_of_int (max (uint m) (uint stack_size))]
      \<and> (0 \<le> sint m \<longrightarrow>
           stack_sizes_applied (snd (g_system_thread_create p thread_func arg stack_size joinable thread error))
             = [word_of_int (max (sint m) (uint stack_size))]))
   \<and> (thread_func \<noteq> NULL \<and> status p pthread_attr_init = 0 \<and> have_setstacksize p \<and> stack_size \<noteq> 0
      \<and> stack_min p = None \<longrightarrow>
      stack_sizes_applied (snd (g_system_thread_create p thread_func arg stack_size joinable thread error))
        = [stack_size])
   \<and> (\<forall>w \<in> set (stack_sizes_applied
            (snd (g_system_thread_create p thread_func arg stack_size joinable thread error))).
        stack_size \<le> w)
   \<and> (stack_size = 0 \<longrightarrow>
      stack_sizes_applied (snd (g_system_thread_create p thread_func arg stack_size joinable thread error))
        = [])
   \<and> (\<not> have_setstacksize p \<longrightarrow>
      stack_sizes_applied (snd (g_system_thread_create p thread_func arg stack_size joinable thread error))
        = [])"
  by (auto simp add: stack_sizes_applied_create MAX_ulong_max [symmetric] MAX_ulong_ge
        sint_uint_nonneg split: option.splits)

theorem g_system_thread_create_stack_size_witness:
  "stack_sizes_applied (snd (g_system_thread_create (linux (\<lambda>_. 0)) 7 1 4096 True 3 4)) = [16384]
   \<and> stack_sizes_applied (snd (g_system_thread_create (linux (\<lambda>_. 0)) 7 1 65536 True 3 4)) = [65536]
   \<and> stack_sizes_applied (snd (g_system_thread_create (linux (\<lambda>_. 0)) 7 1 0 True 3 4)) = []"
  using g_system_thread_create_stack_size
          [where p = "linux (\<lambda>_. 0)" and thread_func = 7 and arg = 1 and stack_size = 4096
             and joinable = True and thread = 3 and error = 4 and m = 16384]
        g_system_thread_create_stack_size
          [where p = "linux (\<lambda>_. 0)" and thread_func = 7 and arg = 1 and stack_size = 65536
             and joinable = True and thread = 3 and error = 4 and m = 16384]
        g_system_thread_create_stack_size
          [where p = "linux (\<lambda>_. 0)" and thread_func = 7 and arg = 1 and stack_size = 0
             and joinable = True and thread = 3 and error = 4 and m = 16384]
  by (simp add: linux_def)

section \<open>GPrivate: the fallback value and the values of the threads\<close>







section \<open>GRecMutex: the race for the first use\<close>

text \<open>
  What every interleaving keeps: the published handle is a block in use, candidates are
  blocks in use, not null, never the published handle and never shared by two threads,
  at most one exchange has succeeded, and no freed candidate was the published handle.
\<close>

lemma initially_race_inv: "initially s \<Longrightarrow> race_inv s"
  by (simp add: initially_def race_inv_def)

lemma pc_ok_alloc: "pc_ok x B p \<Longrightarrow> pc_ok x (insert b B) p"
  by (cases p) auto

lemma pc_ok_publish: "pc_ok NULL B p \<Longrightarrow> candidate p \<noteq> Some c \<Longrightarrow> pc_ok c B p"
  by (cases p) auto

lemma pc_ok_discard: "pc_ok x B p \<Longrightarrow> candidate p \<noteq> Some c \<Longrightarrow> pc_ok x (B - {c}) p"
  by (cases p) auto

lemma candidate_blocks: "pc_ok x B p \<Longrightarrow> candidate p = Some c \<Longrightarrow> c \<in> B"
  by (cases p) auto

lemma race_invI:
  assumes "cell s \<noteq> NULL \<Longrightarrow> cell s \<in> blocks s"
    and "\<And>u. pc_ok (cell s) (blocks s) (at s u)"
    and "\<And>u v. u \<noteq> v \<Longrightarrow> candidate (at s u) \<noteq> None \<Longrightarrow> candidate (at s u) \<noteq> candidate (at s v)"
    and "if cell s = NULL then wins s = [] else \<exists>w. wins s = [(w, cell s)]"
    and "\<And>u c. (u, c) \<in> set (frees s) \<Longrightarrow> cell s \<noteq> NULL \<and> c \<noteq> cell s"
  shows "race_inv s"
  using assms unfolding race_inv_def by blast

lemma get_impl_step_race_inv:
  assumes inv: "race_inv s" and st: "get_impl_step t b s = Some s'"
  shows "race_inv s'"
proof -
  from inv have live: "cell s \<noteq> NULL \<Longrightarrow> cell s \<in> blocks s"
    and ok: "\<And>u. pc_ok (cell s) (blocks s) (at s u)"
    and own: "\<And>u v. u \<noteq> v \<Longrightarrow> candidate (at s u) \<noteq> None \<Longrightarrow> candidate (at s u) \<noteq> candidate (at s v)"
    and won: "if cell s = NULL then wins s = [] else \<exists>w. wins s = [(w, cell s)]"
    and lost: "\<And>u c. (u, c) \<in> set (frees s) \<Longrightarrow> cell s \<noteq> NULL \<and> c \<noteq> cell s"
    unfolding race_inv_def by blast+
  show ?thesis
  proof (cases "at s t")
    case Load
    with st have s': "s' = s\<lparr>at := (at s)(t := Test (cell s))\<rparr>"
      by (simp add: get_impl_step_def)
    show ?thesis
    proof (rule race_invI)
      show "pc_ok (cell s') (blocks s') (at s' u)" for u
        using ok [of u] by (simp add: s')
      show "candidate (at s' u) \<noteq> candidate (at s' v)"
        if "u \<noteq> v" "candidate (at s' u) \<noteq> None" for u v
        using that own [of u v] own [of u t] Load by (auto simp add: s' split: if_splits)
    qed (use live won lost in \<open>simp_all add: s'\<close>)
  next
    case (Test l)
    with st have s': "s' = s\<lparr>at := (at s)(t := if cell s = NULL then Alloc else Return l)\<rparr>"
      by (simp add: get_impl_step_def)
    from ok [of t] Test have l: "l = NULL \<or> l = cell s"
      by simp
    show ?thesis
    proof (rule race_invI)
      show "pc_ok (cell s') (blocks s') (at s' u)" for u
        using ok [of u] l by (simp add: s')
      show "candidate (at s' u) \<noteq> candidate (at s' v)"
        if "u \<noteq> v" "candidate (at s' u) \<noteq> None" for u v
        using that own [of u v] own [of u t] Test by (auto simp add: s' split: if_splits)
    qed (use live won lost in \<open>simp_all add: s'\<close>)
  next
    case Alloc
    with st have b: "b \<noteq> NULL" "b \<notin> blocks s"
      and s': "s' = s\<lparr>blocks := insert b (blocks s), at := (at s)(t := Publish b)\<rparr>"
      by (auto simp add: get_impl_step_def g_rec_mutex_impl_new_def split: if_splits)
    have fresh: "candidate (at s u) \<noteq> Some b" for u
      using candidate_blocks [OF ok [of u], of b] b by auto
    show ?thesis
    proof (rule race_invI)
      show "pc_ok (cell s') (blocks s') (at s' u)" for u
        using pc_ok_alloc [OF ok [of u], of b] b live by (auto simp add: s')
      show "candidate (at s' u) \<noteq> candidate (at s' v)"
        if "u \<noteq> v" "candidate (at s' u) \<noteq> None" for u v
        using that own [of u v] fresh [of u] fresh [of v] by (auto simp add: s' split: if_splits)
    qed (use live won lost in \<open>simp_all add: s'\<close>)
  next
    case (Publish c)
    from ok [of t] Publish have c: "c \<noteq> NULL" "c \<in> blocks s" "c \<noteq> cell s"
      by simp_all
    show ?thesis
    proof (cases "cell s = NULL")
      case True
      with st Publish have s': "s' = s\<lparr>cell := c, at := (at s)(t := Reload), wins := wins s @ [(t, c)]\<rparr>"
        by (simp add: get_impl_step_def g_atomic_pointer_compare_and_exchange_def)
      have other: "candidate (at s u) \<noteq> Some c" if "u \<noteq> t" for u
        using own [of t u] that Publish by auto
      show ?thesis
      proof (rule race_invI)
        show "pc_ok (cell s') (blocks s') (at s' u)" for u
          using pc_ok_publish [of "blocks s" "at s u" c] ok [of u] other [of u] True c
          by (auto simp add: s')
        show "candidate (at s' u) \<noteq> candidate (at s' v)"
          if "u \<noteq> v" "candidate (at s' u) \<noteq> None" for u v
          using that own [of u v] own [of u t] Publish by (auto simp add: s' split: if_splits)
        show "cell s' \<noteq> NULL \<and> c' \<noteq> cell s'" if "(u, c') \<in> set (frees s')" for u c'
          using that lost [of u c'] True by (simp add: s')
      qed (use c won True in \<open>simp_all add: s'\<close>)
    next
      case False
      with st Publish have s': "s' = s\<lparr>at := (at s)(t := Discard c)\<rparr>"
        by (simp add: get_impl_step_def g_atomic_pointer_compare_and_exchange_def)
      show ?thesis
      proof (rule race_invI)
        show "pc_ok (cell s') (blocks s') (at s' u)" for u
          using ok [of u] c False by (simp add: s')
        show "candidate (at s' u) \<noteq> candidate (at s' v)"
          if "u \<noteq> v" "candidate (at s' u) \<noteq> None" for u v
          using that own [of u v] own [of t v] own [of u t] Publish
          by (auto simp add: s' split: if_splits)
      qed (use live won lost in \<open>simp_all add: s'\<close>)
    qed
  next
    case (Discard c)
    with st have s': "s' = s\<lparr>blocks := blocks s - {c}, at := (at s)(t := Reload),
        frees := frees s @ [(t, c)]\<rparr>"
      by (simp add: get_impl_step_def)
    from ok [of t] Discard have c: "c \<noteq> NULL" "c \<in> blocks s" "c \<noteq> cell s" "cell s \<noteq> NULL"
      by simp_all
    have other: "candidate (at s u) \<noteq> Some c" if "u \<noteq> t" for u
      using own [of t u] that Discard by auto
    show ?thesis
    proof (rule race_invI)
      show "pc_ok (cell s') (blocks s') (at s' u)" for u
        using pc_ok_discard [of "cell s" "blocks s" "at s u" c] ok [of u] other [of u] c
        by (auto simp add: s')
      show "candidate (at s' u) \<noteq> candidate (at s' v)"
        if "u \<noteq> v" "candidate (at s' u) \<noteq> None" for u v
        using that own [of u v] own [of u t] Discard by (auto simp add: s' split: if_splits)
      show "cell s' \<noteq> NULL \<and> c' \<noteq> cell s'" if "(u, c') \<in> set (frees s')" for u c'
        using that lost [of u c'] c by (auto simp add: s')
    qed (use live won c in \<open>simp_all add: s'\<close>)
  next
    case Reload
    with st have s': "s' = s\<lparr>at := (at s)(t := Return (cell s))\<rparr>"
      by (simp add: get_impl_step_def)
    show ?thesis
    proof (rule race_invI)
      show "pc_ok (cell s') (blocks s') (at s' u)" for u
        using ok [of u] by (simp add: s')
      show "candidate (at s' u) \<noteq> candidate (at s' v)"
        if "u \<noteq> v" "candidate (at s' u) \<noteq> None" for u v
        using that own [of u v] own [of u t] Reload by (auto simp add: s' split: if_splits)
    qed (use live won lost in \<open>simp_all add: s'\<close>)
  next
    case (Return l)
    with st show ?thesis
      by (simp add: get_impl_step_def)
  qed
qed

lemma interleave_Cons_Some:
  assumes "interleave (a # sched) s = Some s'"
  obtains s1 where "get_impl_step (fst a) (snd a) s = Some s1" and "interleave sched s1 = Some s'"
  using assms by (cases a) (auto split: option.splits)

lemma interleave_race_inv: "race_inv s \<Longrightarrow> interleave sched s = Some s' \<Longrightarrow> race_inv s'"
proof (induction sched arbitrary: s)
  case Nil
  then show ?case by simp
next
  case (Cons a sched)
  obtain t b where a: "a = (t, b)"
    by (cases a)
  from Cons.prems(2) a obtain s1 where s1: "get_impl_step t b s = Some s1" and rest: "interleave sched s1 = Some s'"
    by (auto split: option.splits)
  from Cons.IH [OF get_impl_step_race_inv [OF Cons.prems(1) s1] rest] show ?case .
qed

lemma get_impl_step_cell_stable: "get_impl_step t b s = Some s' \<Longrightarrow> cell s \<noteq> NULL \<Longrightarrow> cell s' = cell s"
  by (auto simp add: get_impl_step_def g_atomic_pointer_compare_and_exchange_def
        split: pc.splits if_splits)

lemma interleave_cell_stable: "interleave sched s = Some s' \<Longrightarrow> cell s \<noteq> NULL \<Longrightarrow> cell s' = cell s"
proof (induction sched arbitrary: s)
  case Nil
  then show ?case by simp
next
  case (Cons a sched)
  from Cons.prems(1) obtain s1 where s1: "get_impl_step (fst a) (snd a) s = Some s1"
    and rest: "interleave sched s1 = Some s'"
    by (rule interleave_Cons_Some)
  from get_impl_step_cell_stable [OF s1 Cons.prems(2)] Cons.IH [OF rest] Cons.prems(2) show ?case
    by simp
qed

lemma get_impl_step_late:
  "get_impl_step u b s = Some s' \<Longrightarrow> cell s \<noteq> NULL \<Longrightarrow> late (cell s) (at s t) \<Longrightarrow> late (cell s) (at s' t)"
  by (auto simp add: get_impl_step_def late_def g_atomic_pointer_compare_and_exchange_def
        split: pc.splits if_splits)

lemma interleave_late:
  "interleave sched s = Some s' \<Longrightarrow> cell s \<noteq> NULL \<Longrightarrow> late (cell s) (at s t) \<Longrightarrow> late (cell s) (at s' t)"
proof (induction sched arbitrary: s)
  case Nil
  then show ?case by simp
next
  case (Cons a sched)
  from Cons.prems(1) obtain s1 where s1: "get_impl_step (fst a) (snd a) s = Some s1"
    and rest: "interleave sched s1 = Some s'"
    by (rule interleave_Cons_Some)
  have "cell s1 = cell s"
    by (rule get_impl_step_cell_stable [OF s1 Cons.prems(2)])
  with Cons.IH [OF rest, of ] get_impl_step_late [OF s1 Cons.prems(2) Cons.prems(3)] Cons.prems(2)
  show ?case
    by simp
qed

lemma get_impl_step_racing:
  assumes "race_inv s" and "get_impl_step u b s = Some s'" and "racing (cell s) (at s t)"
  shows "racing (cell s') (at s' t)"
proof -
  from assms(1) have "pc_ok (cell s) (blocks s) (at s u)"
    by (simp add: race_inv_def)
  with assms(2,3) show ?thesis
    by (auto simp add: get_impl_step_def racing_def g_atomic_pointer_compare_and_exchange_def
          split: pc.splits if_splits)
qed

lemma interleave_racing:
  "race_inv s \<Longrightarrow> interleave sched s = Some s' \<Longrightarrow> racing (cell s) (at s t)
     \<Longrightarrow> racing (cell s') (at s' t)"
proof (induction sched arbitrary: s)
  case Nil
  then show ?case by simp
next
  case (Cons a sched)
  from Cons.prems(2) obtain s1 where s1: "get_impl_step (fst a) (snd a) s = Some s1"
    and rest: "interleave sched s1 = Some s'"
    by (rule interleave_Cons_Some)
  from Cons.IH [OF get_impl_step_race_inv [OF Cons.prems(1) s1] rest
      get_impl_step_racing [OF Cons.prems(1) s1 Cons.prems(3)]]
  show ?case .
qed

text \<open>
  From a mutex not yet used, whatever the schedule: at most one exchange wins, and the
  winner's block is the handle in the field; a freed candidate is one that lost; no
  candidate held is the published handle; a call returns null or the published handle.
\<close>

lemma race_summary:
  assumes "initially s" and "interleave sched s = Some s'"
  shows "length (wins s') \<le> 1"
    and "\<forall>(w, c) \<in> set (wins s'). c = cell s' \<and> c \<noteq> NULL \<and> c \<in> blocks s'"
    and "\<forall>(u, c) \<in> set (frees s'). wins s' \<noteq> [] \<and> (\<forall>w. (w, c) \<notin> set (wins s'))"
    and "\<forall>u c. candidate (at s' u) = Some c \<longrightarrow> c \<noteq> cell s'"
    and "\<forall>u l. at s' u = Return l \<longrightarrow> l = NULL \<or> l = cell s'"
proof -
  have inv: "race_inv s'"
    by (rule interleave_race_inv [OF initially_race_inv [OF assms(1)] assms(2)])
  then have live: "cell s' \<noteq> NULL \<longrightarrow> cell s' \<in> blocks s'"
    and ok: "\<forall>u. pc_ok (cell s') (blocks s') (at s' u)"
    and won: "if cell s' = NULL then wins s' = [] else \<exists>w. wins s' = [(w, cell s')]"
    and lost: "\<forall>(u, c) \<in> set (frees s'). cell s' \<noteq> NULL \<and> c \<noteq> cell s'"
    unfolding race_inv_def by blast+
  from won show "length (wins s') \<le> 1"
    by (auto split: if_splits)
  from won live show "\<forall>(w, c) \<in> set (wins s'). c = cell s' \<and> c \<noteq> NULL \<and> c \<in> blocks s'"
    by (auto split: if_splits)
  from won lost show "\<forall>(u, c) \<in> set (frees s'). wins s' \<noteq> [] \<and> (\<forall>w. (w, c) \<notin> set (wins s'))"
    by (auto split: if_splits)
  show "\<forall>u c. candidate (at s' u) = Some c \<longrightarrow> c \<noteq> cell s'"
  proof (intro allI impI)
    fix u c
    assume "candidate (at s' u) = Some c"
    with ok [rule_format, of u] show "c \<noteq> cell s'"
      by (cases "at s' u") auto
  qed
  show "\<forall>u l. at s' u = Return l \<longrightarrow> l = NULL \<or> l = cell s'"
  proof (intro allI impI)
    fix u l
    assume "at s' u = Return l"
    with ok [rule_format, of u] show "l = NULL \<or> l = cell s'"
      by simp
  qed
qed

text \<open>
  A call that begins after the publication returns the published handle, and so does a
  call that found the field null at its test (it takes part in the race, and reloads).
\<close>

lemma late_caller:
  assumes "interleave sched s = Some s'" and "cell s \<noteq> NULL" and "at s t = Load" and "at s' t = Return l"
  shows "l = cell s \<and> cell s' = cell s"
  using interleave_late [OF assms(1,2), of t] interleave_cell_stable [OF assms(1,2)] assms(3,4)
  by (simp add: late_def)

lemma racing_caller:
  assumes "initially s" and "interleave sched s = Some s1" and "at s1 t = Alloc"
    and "interleave sched' s1 = Some s'" and "at s' t = Return l"
  shows "l = cell s' \<and> l \<noteq> NULL"
  using interleave_racing [OF interleave_race_inv [OF initially_race_inv [OF assms(1)] assms(2)] assms(4), of t]
    assms(3,5)
  by (auto simp add: racing_def)

text \<open>
  C6. Two threads use a static recursive mutex for the first time. Thread 1 copies the
  null field (line 260). Thread 2 runs lines 260 to 265 and publishes its block 64.
  Thread 1 now tests the field (line 262), finds it set, skips the allocation, and
  returns its copy: null, not the published handle 64, which its caller will hand to
  \<^verbatim>\<open>pthread_mutex_lock\<close>.
\<close>

theorem g_rec_mutex_get_impl_race_returns_null:
  "map_option (\<lambda>s. (at s 1, at s 2, cell s, wins s, frees s))
     (interleave [(1, 0), (2, 0), (2, 0), (2, 64), (2, 0), (1, 0)] unallocated)
   = Some (Return NULL, Reload, 64, [(2, 64)], [])"
  by (simp add: unallocated_def get_impl_step_def g_atomic_pointer_compare_and_exchange_def g_rec_mutex_impl_new_def)

end
